theory Spec2Isabelle
  imports Complex_Main "HOL-Library.Word" "HOL-Library.AList"
begin

unbundle bit_operations_syntax

section \<open>Go values used by client.go\<close>

type_synonym byte = "8 word"

text \<open>A run-time panic of the Go program. None of them is recovered in client.go, so
  a panic ends the goroutine (and with it the program) that raised it.\<close>

datatype panic = IndexOutOfRange | SliceBoundsOutOfRange | AssignToNilMap

text \<open>A Go byte slice: the \<open>len\<close> elements it shows and, behind them, the elements of
  its backing array up to \<open>cap\<close>. Indexing is checked against \<open>len\<close>, re-slicing
  \<open>s[lo:hi]\<close> against \<open>cap\<close>, as the language specification says.\<close>

record go_slice =
  elems :: "byte list"
  spare :: "byte list"

definition len_slice :: "go_slice \<Rightarrow> nat" where
  "len_slice s = length (elems s)"

definition cap_slice :: "go_slice \<Rightarrow> nat" where
  "cap_slice s = length (elems s) + length (spare s)"

definition index_slice :: "go_slice \<Rightarrow> nat \<Rightarrow> panic + byte" where
  "index_slice s i = (if i < len_slice s then Inr (elems s ! i) else Inl IndexOutOfRange)"

definition reslice :: "go_slice \<Rightarrow> nat \<Rightarrow> nat \<Rightarrow> panic + go_slice" where
  "reslice s lo hi =
     (if lo \<le> hi \<and> hi \<le> cap_slice s
      then Inr \<lparr> elems = take (hi - lo) (drop lo (elems s @ spare s)),
                 spare = drop hi (elems s @ spare s) \<rparr>
      else Inl SliceBoundsOutOfRange)"

text \<open>Sequencing of steps that may panic: the first panic is the result.\<close>

definition ok_then :: "panic + 'a \<Rightarrow> ('a \<Rightarrow> panic + 'b) \<Rightarrow> panic + 'b" where
  "ok_then r f = (case r of Inl e \<Rightarrow> Inl e | Inr x \<Rightarrow> f x)"

text \<open>\<open>binary.Write(_, binary.LittleEndian, w)\<close> for an unsigned integer of \<open>n\<close> bytes, and
  \<open>binary.Read\<close> of a \<open>uint32\<close> and of a \<open>uint16\<close>. A reader that holds too few bytes
  makes \<open>binary.Read\<close> fail; the callers only log the error and go on with the
  variable's zero value.\<close>

definition le_bytes :: "nat \<Rightarrow> 'a::len word \<Rightarrow> byte list" where
  "le_bytes n w = map (\<lambda>i. ucast (drop_bit (8 * i) w)) [0..<n]"

fun le_uint32 :: "byte list \<Rightarrow> 32 word" where
  "le_uint32 [b0, b1, b2, b3] =
     ucast b0 OR push_bit 8 (ucast b1) OR push_bit 16 (ucast b2) OR push_bit 24 (ucast b3)"
| "le_uint32 _ = 0"

fun le_uint16 :: "byte list \<Rightarrow> 16 word" where
  "le_uint16 [b0, b1] = ucast b0 OR push_bit 8 (ucast b1)"
| "le_uint16 _ = 0"

section \<open>The constants client.go refers to\<close>

text \<open>The constants are declared in a file of the package that is not part of the
  sources at hand, so every function below takes them as a parameter. Those handed to
  \<open>networkFrameGenerator\<close> are bytes; \<open>ARNETWORKAL_MANAGER_DEFAULT_ID_MAX / 2\<close> is a
  constant expression added to a \<open>uint16\<close>.\<close>

record constants =
  ARNETWORKAL_FRAME_TYPE_ACK :: byte
  ARNETWORKAL_FRAME_TYPE_DATA :: byte
  ARNETWORKAL_FRAME_TYPE_DATA_LOW_LATENCY :: byte
  ARNETWORKAL_FRAME_TYPE_DATA_WITH_ACK :: byte
  ARNETWORKAL_MANAGER_DEFAULT_ID_MAX :: nat
  ARNETWORK_MANAGER_INTERNAL_BUFFER_ID_PING :: byte
  ARNETWORK_MANAGER_INTERNAL_BUFFER_ID_PONG :: byte
  BD_NET_CD_VIDEO_ACK_ID :: byte
  BD_NET_DC_VIDEO_DATA_ID :: byte
  ARCOMMANDS_ID_ARDRONE3_PILOTINGSTATE_CMD_POSITIONCHANGED :: int

section \<open>Directional commands\<close>

definition validatePitch :: "int \<Rightarrow> int" where
  "validatePitch val = (if val > 100 then 100 else if val < 0 then 0 else val)"

text \<open>\<open>Psi\<close> is a \<open>float32\<close> that only ever holds the literal 0.\<close>

record Pcmd =
  Flag :: int
  Roll :: int
  Pitch :: int
  Yaw :: int
  Gaz :: int
  Psi :: real

section \<open>Network frames\<close>

record NetworkFrame =
  Type :: int
  Seq :: int
  ID :: int
  Size :: int
  Data :: go_slice

definition NewNetworkFrame :: "go_slice \<Rightarrow> panic + NetworkFrame" where
  "NewNetworkFrame buf =
     ok_then (index_slice buf 0) (\<lambda>b0.
     ok_then (index_slice buf 1) (\<lambda>b1.
     ok_then (index_slice buf 2) (\<lambda>b2.
     ok_then (reslice buf 3 7) (\<lambda>hdr.
     let size = le_uint32 (elems hdr) in
     ok_then (reslice buf 7 (unat size)) (\<lambda>d.
     Inr \<lparr> Type = uint b0, Seq = uint b2, ID = uint b1, Size = uint size, Data = d \<rparr>)))))"

text \<open>The closure returned by \<open>networkFrameGenerator()\<close>. Its captured map \<open>seq\<close> is
  passed in and returned. Reading a missing key of a Go map gives the zero value.\<close>

definition hlen :: nat where
  "hlen = 7"

definition lookup_seq :: "(byte \<rightharpoonup> byte) \<Rightarrow> byte \<Rightarrow> byte" where
  "lookup_seq seq id' = (case seq id' of None \<Rightarrow> 0 | Some v \<Rightarrow> v)"

definition networkFrameGenerator ::
  "(byte \<rightharpoonup> byte) \<Rightarrow> byte list \<Rightarrow> byte \<Rightarrow> byte \<Rightarrow> (byte \<rightharpoonup> byte) \<times> byte list" where
  "networkFrameGenerator seq cmd frameType id' =
     (let seq1 = (if seq id' = None then seq(id' \<mapsto> 0) else seq);
          seq2 = seq1(id' \<mapsto> lookup_seq seq1 id' + 1);
          seq3 = (if lookup_seq seq2 id' > 255 then seq2(id' \<mapsto> 0) else seq2);
          size = le_bytes 4 (word_of_nat (length cmd + hlen) :: 32 word)
      in (seq3, [frameType, id', lookup_seq seq3 id'] @ size @ cmd))"

section \<open>The client's state\<close>

text \<open>Go's \<open>int\<close> has 64 bits. The \<open>int\<close> fields below hold values read from single bytes
  and from 16- and 32-bit words, and the only arithmetic on them adds 1 or subtracts 64, so
  they are modelled as integers without wrap-around.\<close>

record ARStreamACK =
  FrameNumber :: int
  HighPacketsAck :: "64 word"
  LowPacketsAck :: "64 word"

text \<open>\<open>fragments\<close> is a Go map from \<open>int\<close> to byte slices: \<open>None\<close> is the nil map of
  the zero-valued struct, \<open>Some\<close> an allocated map, kept as an association list with one
  entry per key (\<open>make\<close> gives the empty list, an assignment is \<open>AList.update\<close>), so
  that \<open>len\<close> is the length of the list.\<close>

record tmpFrame =
  arstreamACK :: ARStreamACK
  fragments :: "(int \<times> byte list) list option"
  frame :: "byte list"
  waitForIframe :: bool
  frameFlags :: int

record ARStreamFrame =
  FrameNumber :: int
  FrameFlags :: int
  FragmentNumber :: int
  FragmentsPerFrame :: int
  Frame :: "byte list"

record Bebop =
  Pcmd :: Pcmd
  tmpFrame :: tmpFrame
  seq :: "byte \<rightharpoonup> byte"

definition New :: Bebop where
  "New = \<lparr> Pcmd = \<lparr> Flag = 0, Roll = 0, Pitch = 0, Yaw = 0, Gaz = 0, Psi = 0 \<rparr>,
           tmpFrame = \<lparr> arstreamACK = \<lparr> ARStreamACK.FrameNumber = 0, HighPacketsAck = 0, LowPacketsAck = 0 \<rparr>,
                        fragments = None, frame = [], waitForIframe = False, frameFlags = 0 \<rparr>,
           seq = Map.empty \<rparr>"

section \<open>Directional setters\<close>

definition Up :: "Bebop \<Rightarrow> int \<Rightarrow> Bebop" where
  "Up b val = (let b1 = b\<lparr>Pcmd := (Pcmd b)\<lparr>Flag := 1\<rparr>\<rparr>
               in b1\<lparr>Pcmd := (Pcmd b1)\<lparr>Gaz := validatePitch val\<rparr>\<rparr>)"

definition Down :: "Bebop \<Rightarrow> int \<Rightarrow> Bebop" where
  "Down b val = (let b1 = b\<lparr>Pcmd := (Pcmd b)\<lparr>Flag := 1\<rparr>\<rparr>
                 in b1\<lparr>Pcmd := (Pcmd b1)\<lparr>Gaz := validatePitch val * -1\<rparr>\<rparr>)"

definition Forward :: "Bebop \<Rightarrow> int \<Rightarrow> Bebop" where
  "Forward b val = (let b1 = b\<lparr>Pcmd := (Pcmd b)\<lparr>Flag := 1\<rparr>\<rparr>
                    in b1\<lparr>Pcmd := (Pcmd b1)\<lparr>Pitch := validatePitch val\<rparr>\<rparr>)"

definition Backward :: "Bebop \<Rightarrow> int \<Rightarrow> Bebop" where
  "Backward b val = (let b1 = b\<lparr>Pcmd := (Pcmd b)\<lparr>Flag := 1\<rparr>\<rparr>
                     in b1\<lparr>Pcmd := (Pcmd b1)\<lparr>Pitch := validatePitch val * -1\<rparr>\<rparr>)"

definition Right :: "Bebop \<Rightarrow> int \<Rightarrow> Bebop" where
  "Right b val = (let b1 = b\<lparr>Pcmd := (Pcmd b)\<lparr>Flag := 1\<rparr>\<rparr>
                  in b1\<lparr>Pcmd := (Pcmd b1)\<lparr>Roll := validatePitch val\<rparr>\<rparr>)"

definition Left :: "Bebop \<Rightarrow> int \<Rightarrow> Bebop" where
  "Left b val = (let b1 = b\<lparr>Pcmd := (Pcmd b)\<lparr>Flag := 1\<rparr>\<rparr>
                 in b1\<lparr>Pcmd := (Pcmd b1)\<lparr>Roll := validatePitch val * -1\<rparr>\<rparr>)"

definition Clockwise :: "Bebop \<Rightarrow> int \<Rightarrow> Bebop" where
  "Clockwise b val = (let b1 = b\<lparr>Pcmd := (Pcmd b)\<lparr>Flag := 1\<rparr>\<rparr>
                      in b1\<lparr>Pcmd := (Pcmd b1)\<lparr>Yaw := validatePitch val\<rparr>\<rparr>)"

definition CounterClockwise :: "Bebop \<Rightarrow> int \<Rightarrow> Bebop" where
  "CounterClockwise b val = (let b1 = b\<lparr>Pcmd := (Pcmd b)\<lparr>Flag := 1\<rparr>\<rparr>
                             in b1\<lparr>Pcmd := (Pcmd b1)\<lparr>Yaw := validatePitch val * -1\<rparr>\<rparr>)"

definition Stop :: "Bebop \<Rightarrow> Bebop" where
  "Stop b = b\<lparr>Pcmd := \<lparr> Flag = 0, Roll = 0, Pitch = 0, Yaw = 0, Gaz = 0, Psi = 0 \<rparr>\<rparr>"

section \<open>Acknowledgments and pongs\<close>

text \<open>\<open>uint8(frame.Seq)\<close> and \<open>byte(uint16(frame.ID) + MAX/2)\<close> truncate.\<close>

definition createAck :: "constants \<Rightarrow> Bebop \<Rightarrow> NetworkFrame \<Rightarrow> Bebop \<times> byte list" where
  "createAck c b fr =
     (let (seq', ret) =
            networkFrameGenerator (seq b) [word_of_int (Seq fr)]
              (ARNETWORKAL_FRAME_TYPE_ACK c)
              (ucast ((word_of_int (ID fr) :: 16 word)
                      + word_of_nat (ARNETWORKAL_MANAGER_DEFAULT_ID_MAX c div 2)))
      in (b\<lparr>seq := seq'\<rparr>, ret))"

definition createPong :: "constants \<Rightarrow> Bebop \<Rightarrow> NetworkFrame \<Rightarrow> Bebop \<times> byte list" where
  "createPong c b fr =
     (let (seq', ret) =
            networkFrameGenerator (seq b) (elems (Data fr))
              (ARNETWORKAL_FRAME_TYPE_DATA c)
              (ARNETWORK_MANAGER_INTERNAL_BUFFER_ID_PONG c)
      in (b\<lparr>seq := seq'\<rparr>, ret))"

section \<open>Video fragments\<close>

definition NewARStreamFrame :: "go_slice \<Rightarrow> panic + ARStreamFrame" where
  "NewARStreamFrame buf =
     ok_then (index_slice buf 2) (\<lambda>b2.
     ok_then (index_slice buf 3) (\<lambda>b3.
     ok_then (index_slice buf 4) (\<lambda>b4.
     ok_then (reslice buf 0 2) (\<lambda>r.
     let number = le_uint16 (elems r) in
     ok_then (reslice buf 5 (len_slice buf)) (\<lambda>d.
     Inr \<lparr> FrameNumber = uint number, FrameFlags = uint b2, FragmentNumber = uint b3,
           FragmentsPerFrame = uint b4, Frame = elems d \<rparr>)))))"

definition len_fragments :: "(int \<times> byte list) list option \<Rightarrow> nat" where
  "len_fragments m = (case m of None \<Rightarrow> 0 | Some al \<Rightarrow> length al)"

text \<open>Reading a key that the map does not hold (or reading the nil map) gives the nil
  slice, of length 0.\<close>

definition lookup_fragment :: "(int \<times> byte list) list option \<Rightarrow> int \<Rightarrow> byte list" where
  "lookup_fragment m i =
     (case m of None \<Rightarrow> []
      | Some al \<Rightarrow> (case map_of al i of None \<Rightarrow> [] | Some p \<Rightarrow> p))"

text \<open>The loop \<open>for i := 0; i < len(fragments); i++\<close> of \<open>createARStreamACK\<close>, from \<open>i\<close>
  on; the result is \<open>skip\<close> and the bytes appended to \<open>frame\<close> so far.\<close>

function collect_fragments ::
  "(int \<times> byte list) list option \<Rightarrow> int \<Rightarrow> byte list \<Rightarrow> bool \<times> byte list" where
  "collect_fragments m i fr =
     (if i < int (len_fragments m)
      then (if length (lookup_fragment m i) = 0 then (True, fr)
            else collect_fragments m (i + 1) (fr @ lookup_fragment m i))
      else (False, fr))"
  by pat_completeness auto
termination
  by (relation "measure (\<lambda>(m, i, fr). nat (int (len_fragments m) - i))") auto

declare collect_fragments.simps [simp del]

text \<open>The block under \<open>if len(b.tmpFrame.fragments) > 0\<close>. \<open>ready\<close> says whether a
  receiver is waiting on the unbuffered channel \<open>b.video\<close> when the \<open>select\<close> runs: the
  frame is handed over if so, and dropped by the \<open>default\<close> case if not.\<close>

definition finalize :: "bool \<Rightarrow> tmpFrame \<Rightarrow> ARStreamFrame \<Rightarrow> tmpFrame \<times> byte list option" where
  "finalize ready t fr =
     (let t1 = (if FrameNumber fr \<noteq> ARStreamACK.FrameNumber (arstreamACK t) + 1
                then t\<lparr>waitForIframe := True\<rparr> else t);
          (t2, emit) = (if frameFlags t1 = 1 then (t1\<lparr>waitForIframe := False\<rparr>, True)
                        else if \<not> waitForIframe t1 then (t1, True)
                        else (t1, False))
      in if emit
         then (let (skip, f) = collect_fragments (fragments t2) 0 (frame t2)
               in (t2\<lparr>frame := f\<rparr>, if \<not> skip \<and> ready then Some f else None))
         else (t2, None))"

text \<open>\<open>uint64(1) << uint64(n)\<close>: the count is the \<open>int\<close> read as 64 unsigned bits, and a
  count of 64 or more gives 0.\<close>

definition shift_one :: "int \<Rightarrow> 64 word" where
  "shift_one n = push_bit (unat (word_of_int n :: 64 word)) 1"

text \<open>The result is the new state, the frame handed to the video channel (if any) and
  the bytes of the acknowledgment frame.\<close>

definition createARStreamACK ::
  "constants \<Rightarrow> bool \<Rightarrow> Bebop \<Rightarrow> ARStreamFrame \<Rightarrow> panic + (Bebop \<times> byte list option \<times> byte list)" where
  "createARStreamACK c ready b fr =
     (let t = tmpFrame b;
          (t1, out) =
            (if FrameNumber fr \<noteq> ARStreamACK.FrameNumber (arstreamACK t)
             then (let (t', out) = (if len_fragments (fragments t) > 0
                                    then finalize ready t fr else (t, None))
                   in (t'\<lparr>fragments := Some [], frame := [],
                          arstreamACK := (arstreamACK t')\<lparr>ARStreamACK.FrameNumber := FrameNumber fr\<rparr>,
                          frameFlags := FrameFlags fr\<rparr>, out))
             else (t, None))
      in case fragments t1 of
           None \<Rightarrow> Inl AssignToNilMap
         | Some al \<Rightarrow>
             (let t2 = t1\<lparr>fragments := Some (AList.update (FragmentNumber fr) (Frame fr) al)\<rparr>;
                  a = arstreamACK t2;
                  a' = (if FragmentNumber fr < 64
                        then a\<lparr>LowPacketsAck := LowPacketsAck a OR shift_one (FragmentNumber fr)\<rparr>
                        else a\<lparr>HighPacketsAck :=
                                 HighPacketsAck a OR shift_one (FragmentNumber fr - 64)\<rparr>);
                  t3 = t2\<lparr>arstreamACK := a'\<rparr>;
                  ackPacket = le_bytes 2 (word_of_int (ARStreamACK.FrameNumber a') :: 16 word)
                              @ le_bytes 8 (HighPacketsAck a') @ le_bytes 8 (LowPacketsAck a');
                  (seq', ret) = networkFrameGenerator (seq b) ackPacket
                                  (ARNETWORKAL_FRAME_TYPE_DATA c) (BD_NET_CD_VIDEO_ACK_ID c)
              in Inr (b\<lparr>tmpFrame := t3, seq := seq'\<rparr>, out, ret)))"

text \<open>Successive calls of \<open>createARStreamACK\<close>, one per video fragment, each with the
  readiness of the video consumer at that moment; the result lists what each call handed
  to the video channel.\<close>

fun feed ::
  "constants \<Rightarrow> Bebop \<Rightarrow> (bool \<times> ARStreamFrame) list \<Rightarrow> panic + (Bebop \<times> byte list option list)" where
  "feed c b [] = Inr (b, [])"
| "feed c b (x # xs) =
     ok_then (createARStreamACK c (fst x) b (snd x)) (\<lambda>(b', out, ack).
     ok_then (feed c b' xs) (\<lambda>(b'', outs). Inr (b'', out # outs)))"

section \<open>The receiver\<close>

text \<open>The block marked TESTING in \<open>packetReceiver\<close>: it only prints, but its indexing
  and slicing can panic.\<close>

definition positionChangedTest :: "constants \<Rightarrow> NetworkFrame \<Rightarrow> panic + unit" where
  "positionChangedTest c fr =
     (if Type fr = ARCOMMANDS_ID_ARDRONE3_PILOTINGSTATE_CMD_POSITIONCHANGED c
      then (if len_slice (Data fr) \<noteq> 0
            then ok_then (index_slice (Data fr) 0) (\<lambda>cmdProject.
                 ok_then (index_slice (Data fr) 1) (\<lambda>cmdClass.
                 ok_then (index_slice (Data fr) 2) (\<lambda>d2.
                 ok_then (index_slice (Data fr) 3) (\<lambda>d3.
                 let cmdID = uint d2 + uint d3 in
                 ok_then (reslice (Data fr) 4 (len_slice (Data fr))) (\<lambda>cmdRemaining.
                 if cmdClass = 4
                 then (if cmdID = 12
                       then ok_then (reslice cmdRemaining 0 8) (\<lambda>latitude.
                            ok_then (reslice cmdRemaining 8 16) (\<lambda>longitude.
                            ok_then (reslice cmdRemaining 16 24) (\<lambda>altitude.
                            ok_then (reslice cmdRemaining 24 28) (\<lambda>orientationMode.
                            ok_then (reslice cmdRemaining 28 32) (\<lambda>heading.
                            ok_then (reslice cmdRemaining 32 36) (\<lambda>status. Inr ()))))))
                       else Inr ())
                 else Inr ())))))
            else Inr ())
      else Inr ())"

text \<open>The result is the new state, the frame handed to the video channel (if any) and
  the frames written to the outbound queue, in order.\<close>

definition packetReceiver ::
  "constants \<Rightarrow> bool \<Rightarrow> Bebop \<Rightarrow> go_slice \<Rightarrow> panic + (Bebop \<times> byte list option \<times> byte list list)" where
  "packetReceiver c ready b buf =
     ok_then (NewNetworkFrame buf) (\<lambda>fr.
     ok_then (positionChangedTest c fr) (\<lambda>_.
     let (b1, w1) = (if Type fr = uint (ARNETWORKAL_FRAME_TYPE_DATA_WITH_ACK c)
                     then (let (b', ack) = createAck c b fr in (b', [ack]))
                     else (b, []))
     in
     ok_then (if Type fr = uint (ARNETWORKAL_FRAME_TYPE_DATA_LOW_LATENCY c)
                 \<and> ID fr = uint (BD_NET_DC_VIDEO_DATA_ID c)
              then ok_then (NewARStreamFrame (Data fr)) (\<lambda>arstreamFrame.
                   ok_then (createARStreamACK c ready b1 arstreamFrame) (\<lambda>(b', out, ack).
                   Inr (b', out, [ack])))
              else Inr (b1, None, [])) (\<lambda>(b2, out, w2).
     let (b3, w3) = (if ID fr = uint (ARNETWORK_MANAGER_INTERNAL_BUFFER_ID_PING c)
                     then (let (b', pong) = createPong c b2 fr in (b', [pong]))
                     else (b2, []))
     in Inr (b3, out, w1 @ w2 @ w3))))"

section \<open>Helpers for stating the properties\<close>

text \<open>Successive calls of one closure returned by \<open>networkFrameGenerator()\<close>, each call
  given as (payload, frame type, channel id); the result lists the frames returned.\<close>

fun generate_all :: "(byte \<rightharpoonup> byte) \<Rightarrow> (byte list \<times> byte \<times> byte) list \<Rightarrow> byte list list" where
  "generate_all sq [] = []"
| "generate_all sq (x # xs) =
     (let (sq', ret) = networkFrameGenerator sq (fst x) (fst (snd x)) (snd (snd x))
      in ret # generate_all sq' xs)"

text \<open>The number of calls in \<open>xs\<close> made for channel \<open>k\<close>.\<close>

definition calls_on :: "byte \<Rightarrow> (byte list \<times> byte \<times> byte) list \<Rightarrow> nat" where
  "calls_on k xs = length (filter (\<lambda>x. snd (snd x) = k) xs)"

text \<open>One assignment of the constants, used where a property is evaluated on an example;
  the properties themselves are proved for every assignment.\<close>

definition example_constants :: constants where
  "example_constants =
     \<lparr> ARNETWORKAL_FRAME_TYPE_ACK = 1, ARNETWORKAL_FRAME_TYPE_DATA = 2,
       ARNETWORKAL_FRAME_TYPE_DATA_LOW_LATENCY = 3, ARNETWORKAL_FRAME_TYPE_DATA_WITH_ACK = 4,
       ARNETWORKAL_MANAGER_DEFAULT_ID_MAX = 256,
       ARNETWORK_MANAGER_INTERNAL_BUFFER_ID_PING = 0,
       ARNETWORK_MANAGER_INTERNAL_BUFFER_ID_PONG = 1,
       BD_NET_CD_VIDEO_ACK_ID = 13, BD_NET_DC_VIDEO_DATA_ID = 125,
       ARCOMMANDS_ID_ARDRONE3_PILOTINGSTATE_CMD_POSITIONCHANGED = 4 \<rparr>"

text \<open>The decision taken under \<open>if len(b.tmpFrame.fragments) > 0\<close> on whether the frame in
  progress may be emitted, once the test for a missed frame has run: its recorded flags
  are 1, or the client was not waiting for a key frame and the new frame number is the
  next one.\<close>

definition eligible :: "tmpFrame \<Rightarrow> ARStreamFrame \<Rightarrow> bool" where
  "eligible t fr \<longleftrightarrow>
     frameFlags t = 1
     \<or> (\<not> waitForIframe t \<and> FrameNumber fr = ARStreamACK.FrameNumber (arstreamACK t) + 1)"

text \<open>The \<open>fragments\<close> map after the fragments \<open>fs\<close> have been stored in turn.\<close>

fun store_all :: "(int \<times> byte list) list \<Rightarrow> ARStreamFrame list \<Rightarrow> (int \<times> byte list) list" where
  "store_all al [] = al"
| "store_all al (f # fs) = store_all (AList.update (FragmentNumber f) (Frame f) al) fs"

text \<open>A fragment as \<open>NewARStreamFrame\<close> builds it, from frame number, flags, index, declared
  count and payload; what a new client has handed to the video channel, and the
  reassembly state it is in, after a list of fragments; and the client itself after them
  (the new client again if one of them made it panic).\<close>

definition fragment :: "int \<Rightarrow> int \<Rightarrow> int \<Rightarrow> int \<Rightarrow> byte list \<Rightarrow> ARStreamFrame" where
  "fragment n fl i k p =
     \<lparr> FrameNumber = n, FrameFlags = fl, FragmentNumber = i, FragmentsPerFrame = k, Frame = p \<rparr>"

definition emitted_after :: "constants \<Rightarrow> (bool \<times> ARStreamFrame) list \<Rightarrow> byte list option list option" where
  "emitted_after c xs = (case feed c New xs of Inl e \<Rightarrow> None | Inr (b, outs) \<Rightarrow> Some outs)"

definition state_after :: "constants \<Rightarrow> (bool \<times> ARStreamFrame) list \<Rightarrow> tmpFrame option" where
  "state_after c xs = (case feed c New xs of Inl e \<Rightarrow> None | Inr (b, outs) \<Rightarrow> Some (tmpFrame b))"

definition client_after :: "constants \<Rightarrow> (bool \<times> ARStreamFrame) list \<Rightarrow> Bebop" where
  "client_after c xs = (case feed c New xs of Inl e \<Rightarrow> New | Inr (b, outs) \<Rightarrow> b)"

section \<open>Little-endian fields\<close>

lemma le_bytes_4: "le_bytes 4 w = [ucast w, ucast (drop_bit 8 w), ucast (drop_bit 16 w), ucast (drop_bit 24 w)]"
  by (simp add: le_bytes_def upt_rec numeral_eq_Suc)

lemma length_le_bytes [simp]: "length (le_bytes n w) = n"
  by (simp add: le_bytes_def)

lemma le_uint32_le_bytes: "le_uint32 (le_bytes 4 (w :: 32 word)) = w"
  apply (simp add: le_bytes_4)
proof (rule bit_word_eqI)
  fix n :: nat
  assume n: "n < LENGTH(32)"
  consider "n < 8" | "8 \<le> n" "n < 16" | "16 \<le> n" "n < 24" | "24 \<le> n"
    by linarith
  then show "bit (ucast (ucast w :: byte) OR push_bit 8 (ucast (ucast (drop_bit 8 w) :: byte))
                OR push_bit 16 (ucast (ucast (drop_bit 16 w) :: byte))
                OR push_bit 24 (ucast (ucast (drop_bit 24 w) :: byte)) :: 32 word) n = bit w n"
    using n by cases (auto simp add: bit_simps)
qed

lemma byte_not_gt_255: "\<not> (x :: byte) > 255"
proof -
  have "unat x < 2 ^ 8" using unsigned_less [of x] by simp
  then show ?thesis by (simp add: word_less_nat_alt)
qed

lemma lookup_seq_upd: "lookup_seq (s(k \<mapsto> v)) k' = (if k' = k then v else lookup_seq s k')"
  by (simp add: lookup_seq_def)

lemma networkFrameGenerator_eq:
  "networkFrameGenerator sq cmd ty k =
     (sq(k \<mapsto> lookup_seq sq k + 1),
      [ty, k, lookup_seq sq k + 1] @ le_bytes 4 (word_of_nat (length cmd + 7) :: 32 word) @ cmd)"
  by (auto simp add: networkFrameGenerator_def Let_def lookup_seq_upd byte_not_gt_255 hlen_def lookup_seq_def)

lemma length_generate_all: "length (generate_all sq xs) = length xs"
  by (induction xs arbitrary: sq) (auto simp: networkFrameGenerator_eq)

lemma generate_all_seq:
  "i < length xs \<Longrightarrow>
   (generate_all sq xs ! i) ! 2
     = lookup_seq sq (snd (snd (xs ! i))) + word_of_nat (calls_on (snd (snd (xs ! i))) (take (Suc i) xs))"
proof (induction xs arbitrary: sq i)
  case Nil
  then show ?case by simp
next
  case (Cons x xs)
  show ?case
  proof (cases i)
    case 0
    then show ?thesis by (simp add: networkFrameGenerator_eq calls_on_def)
  next
    case (Suc j)
    with Cons.prems have j: "j < length xs" by simp
    define k where "k = snd (snd (xs ! j))"
    define sq' where "sq' = sq(snd (snd x) \<mapsto> lookup_seq sq (snd (snd x)) + 1)"
    have ih: "(generate_all sq' xs ! j) ! 2 = lookup_seq sq' k + word_of_nat (calls_on k (take (Suc j) xs))"
      using Cons.IH [OF j, of sq'] by (simp add: k_def)
    have lk: "lookup_seq sq' k = (if k = snd (snd x) then lookup_seq sq k + 1 else lookup_seq sq k)"
      by (simp add: sq'_def lookup_seq_upd)
    have cnt: "calls_on k (take (Suc (Suc j)) (x # xs))
                 = (if snd (snd x) = k then Suc (calls_on k (take (Suc j) xs)) else calls_on k (take (Suc j) xs))"
      by (simp add: calls_on_def)
    have "(generate_all sq (x # xs) ! i) ! 2 = (generate_all sq' xs ! j) ! 2"
      by (simp add: Suc networkFrameGenerator_eq sq'_def)
    also have "\<dots> = lookup_seq sq k + word_of_nat (calls_on k (take (Suc (Suc j)) (x # xs)))"
      unfolding ih lk cnt by auto
    finally show ?thesis by (simp add: Suc k_def)
  qed
qed

lemma NewNetworkFrame_eq:
  "NewNetworkFrame buf =
     (if len_slice buf < 3 then Inl IndexOutOfRange
      else if cap_slice buf < 7 then Inl SliceBoundsOutOfRange
      else (let size = le_uint32 (take 4 (drop 3 (elems buf @ spare buf)))
            in if unat size < 7 \<or> cap_slice buf < unat size then Inl SliceBoundsOutOfRange
               else Inr \<lparr> Type = uint (elems buf ! 0), Seq = uint (elems buf ! 2),
                          ID = uint (elems buf ! 1), Size = uint size,
                          Data = \<lparr> elems = take (unat size - 7) (drop 7 (elems buf @ spare buf)),
                                   spare = drop (unat size) (elems buf @ spare buf) \<rparr> \<rparr>))"
  by (auto simp add: NewNetworkFrame_def ok_then_def index_slice_def reslice_def len_slice_def
        cap_slice_def Let_def)

lemma unat_len_field:
  assumes "n < 2 ^ 32"
  shows "map unat (le_bytes 4 (word_of_nat n :: 32 word))
           = [n mod 256, n div 256 mod 256, n div 65536 mod 256, n div 16777216 mod 256]"
  using assms
  by (simp add: le_bytes_4 unsigned_ucast_eq take_bit_eq_mod unat_drop_bit_eq drop_bit_eq_div
        unat_of_nat unat_div)

lemma drop_header:
  assumes "length L = 4"
  shows "drop (length p + 7) (a # b # c # L @ p @ sp) = sp"
proof -
  have "drop (length ([a, b, c] @ L @ p)) (([a, b, c] @ L @ p) @ sp) = sp"
    by (rule append_eq_conv_conj [THEN iffD1, THEN conjunct2, symmetric]) simp
  then show ?thesis using assms by (simp add: add.commute)
qed

lemma decode_generated:
  assumes "length payload + 7 < 2 ^ 32"
  shows "NewNetworkFrame \<lparr> elems = snd (networkFrameGenerator sq payload ty k), spare = sp \<rparr>
           = Inr \<lparr> Type = uint ty, Seq = uint (lookup_seq sq k + 1), ID = uint k,
                   Size = int (length payload) + 7, Data = \<lparr> elems = payload, spare = sp \<rparr> \<rparr>"
proof -
  have u: "unat (word_of_nat (length payload + 7) :: 32 word) = length payload + 7"
    unfolding unat_of_nat using assms by simp
  have ui: "uint (word_of_nat (length payload + 7) :: 32 word) = int (length payload) + 7"
    using u by (metis of_nat_add of_nat_numeral of_nat_unat)
  show ?thesis
    by (simp add: NewNetworkFrame_eq networkFrameGenerator_eq len_slice_def cap_slice_def
          le_bytes_4 [symmetric] le_uint32_le_bytes u ui Let_def drop_header del: of_nat_add)
qed

section \<open>The frame codec\<close>

text \<open>C5: for every frame type, channel id and payload whose length field 7 + length
  still fits 32 bits, the generated frame is type, channel id, sequence number, the length
  7 + length of the payload in four little-endian bytes, and the payload; decoding it
  gives back the type, the channel id, the sequence number that was allocated and the
  payload, whatever lies behind the frame in the buffer.\<close>

theorem encode_decode_roundtrip:
  assumes "length payload + 7 < 2 ^ 32"
  shows "snd (networkFrameGenerator sq payload ty k)
           = [ty, k, lookup_seq sq k + 1]
             @ le_bytes 4 (word_of_nat (7 + length payload) :: 32 word) @ payload
         \<and> map unat (le_bytes 4 (word_of_nat (7 + length payload) :: 32 word))
           = [(7 + length payload) mod 256, (7 + length payload) div 256 mod 256,
              (7 + length payload) div 65536 mod 256, (7 + length payload) div 16777216 mod 256]
         \<and> NewNetworkFrame \<lparr> elems = snd (networkFrameGenerator sq payload ty k), spare = sp \<rparr>
           = Inr \<lparr> Type = uint ty, Seq = uint (lookup_seq sq k + 1), ID = uint k,
                   Size = 7 + int (length payload), Data = \<lparr> elems = payload, spare = sp \<rparr> \<rparr>"
proof -
  have n: "7 + length payload < 2 ^ 32" using assms by simp
  show ?thesis
    using decode_generated [OF assms, of sq ty k sp] unat_len_field [OF n]
    by (simp add: networkFrameGenerator_eq add.commute)
qed

theorem encode_decode_roundtrip_witness:
  "length [65, 66 :: byte] + 7 < (2::nat) ^ 32
   \<and> snd (networkFrameGenerator Map.empty [65, 66] 2 10) = [2, 10, 1, 9, 0, 0, 0, 65, 66]
   \<and> NewNetworkFrame \<lparr> elems = [2, 10, 1, 9, 0, 0, 0, 65, 66], spare = [] \<rparr>
       = Inr \<lparr> Type = 2, Seq = 1, ID = 10, Size = 9, Data = \<lparr> elems = [65, 66], spare = [] \<rparr> \<rparr>"
proof -
  have h: "length [65, 66 :: byte] + 7 < (2::nat) ^ 32" by simp
  show ?thesis
    using h encode_decode_roundtrip [OF h, of Map.empty 2 10 "[]"]
    by (auto simp add: le_bytes_4 lookup_seq_def)
qed

section \<open>Sequence numbers\<close>

text \<open>C7: on a fresh generator, the call number \<open>i\<close> of a list of calls returns as its
  sequence number (the third byte of the frame) the number of calls made so far for the
  same channel id, modulo 256: 1, 2, 3, up to 255, then 0. Calls for other channel ids do
  not count, and a call leaves the counter of every other channel id as it was.\<close>

theorem sequence_numbers_per_channel:
  "(i < length calls \<longrightarrow>
      unat ((generate_all Map.empty calls ! i) ! 2)
        = calls_on (snd (snd (calls ! i))) (take (Suc i) calls) mod 256)
   \<and> (k' \<noteq> k \<longrightarrow> fst (networkFrameGenerator sq cmd ty k) k' = sq k')"
proof (intro conjI impI)
  assume i: "i < length calls"
  show "unat ((generate_all Map.empty calls ! i) ! 2)
          = calls_on (snd (snd (calls ! i))) (take (Suc i) calls) mod 256"
    using generate_all_seq [OF i, of Map.empty] by (simp add: lookup_seq_def unat_of_nat)
next
  assume "k' \<noteq> k"
  then show "fst (networkFrameGenerator sq cmd ty k) k' = sq k'"
    by (simp add: networkFrameGenerator_eq)
qed

theorem sequence_numbers_per_channel_witness:
  "unat ((generate_all Map.empty (replicate 256 ([], 2, 10)) ! 0) ! 2) = 1
   \<and> unat ((generate_all Map.empty (replicate 256 ([], 2, 10)) ! 1) ! 2) = 2
   \<and> unat ((generate_all Map.empty (replicate 256 ([], 2, 10)) ! 254) ! 2) = 255
   \<and> unat ((generate_all Map.empty (replicate 256 ([], 2, 10)) ! 255) ! 2) = 0
   \<and> unat ((generate_all Map.empty [([], 2, 10), ([], 2, 11), ([], 2, 10)] ! 2) ! 2) = 2
   \<and> fst (networkFrameGenerator [10 \<mapsto> 7] [] 2 11) 10 = Some 7"
  using sequence_numbers_per_channel [of 0 "replicate 256 ([], 2, 10)" 0 0 Map.empty "[]" 0]
        sequence_numbers_per_channel [of 1 "replicate 256 ([], 2, 10)" 0 0 Map.empty "[]" 0]
        sequence_numbers_per_channel [of 254 "replicate 256 ([], 2, 10)" 0 0 Map.empty "[]" 0]
        sequence_numbers_per_channel [of 255 "replicate 256 ([], 2, 10)" 0 0 Map.empty "[]" 0]
        sequence_numbers_per_channel [of 2 "[([], 2, 10), ([], 2, 11), ([], 2, 10)]" 10 11 "[10 \<mapsto> 7]" "[]" 2]
  by (simp add: calls_on_def)

section \<open>Malformed inbound frames\<close>

lemma packetReceiver_panics_with_decoder:
  "NewNetworkFrame buf = Inl e \<Longrightarrow> packetReceiver c ready b buf = Inl e"
  by (simp add: packetReceiver_def ok_then_def)

text \<open>C6, as stated (a buffer shorter than 7 bytes, or one whose length field exceeds the
  bytes received, makes decoding fail with a MalformedFrame error, without a panic, and
  the reader loop goes on), does not hold. \<open>NewNetworkFrame\<close> returns no error at all.
  A buffer of two bytes makes it panic at \<open>buf[2]\<close>, and \<open>packetReceiver\<close> panics with it;
  a length field of 200 on a buffer of capacity 10 makes it panic at \<open>buf[7:200]\<close>; a
  length field of 9 on 8 received bytes in a buffer of capacity 10 decodes, and the payload
  takes one byte from behind the received ones.\<close>

theorem malformed_frame_counterexample:
  "NewNetworkFrame \<lparr> elems = [2, 10], spare = [0, 0, 0, 0, 0, 0] \<rparr> = Inl IndexOutOfRange
   \<and> packetReceiver example_constants True New \<lparr> elems = [2, 10], spare = [0, 0, 0, 0, 0, 0] \<rparr>
       = Inl IndexOutOfRange
   \<and> NewNetworkFrame \<lparr> elems = [2, 10, 1, 200, 0, 0, 0, 65], spare = [0, 0] \<rparr>
       = Inl SliceBoundsOutOfRange
   \<and> NewNetworkFrame \<lparr> elems = [2, 10, 1, 9, 0, 0, 0, 65], spare = [0, 0] \<rparr>
       = Inr \<lparr> Type = 2, Seq = 1, ID = 10, Size = 9, Data = \<lparr> elems = [65, 0], spare = [0] \<rparr> \<rparr>"
  by (simp add: NewNetworkFrame_eq packetReceiver_panics_with_decoder len_slice_def cap_slice_def)

text \<open>C6, amended: decoding never returns an error value. It panics with an index out of
  range on a buffer shorter than 3 bytes, and with slice bounds out of range when the
  buffer's capacity is below 7 or the length field (read from bytes 3 to 6 of the backing
  array) is below 7 or above the capacity. In every other case, also when the length field
  exceeds the number of bytes received, it returns a frame whose payload is the bytes from
  7 up to the length field of the backing array. A panic of the decoder is a panic of
  \<open>packetReceiver\<close>, which does not recover it.\<close>

theorem decoder_panics_or_reads_capacity:
  "NewNetworkFrame buf =
     (if len_slice buf < 3 then Inl IndexOutOfRange
      else if cap_slice buf < 7 then Inl SliceBoundsOutOfRange
      else (let size = le_uint32 (take 4 (drop 3 (elems buf @ spare buf)))
            in if unat size < 7 \<or> cap_slice buf < unat size then Inl SliceBoundsOutOfRange
               else Inr \<lparr> Type = uint (elems buf ! 0), Seq = uint (elems buf ! 2),
                          ID = uint (elems buf ! 1), Size = uint size,
                          Data = \<lparr> elems = take (unat size - 7) (drop 7 (elems buf @ spare buf)),
                                   spare = drop (unat size) (elems buf @ spare buf) \<rparr> \<rparr>))
   \<and> (\<forall>e. NewNetworkFrame buf = Inl e \<longrightarrow> packetReceiver c ready b buf = Inl e)"
  using NewNetworkFrame_eq [of buf] packetReceiver_panics_with_decoder [of buf _ c ready b]
  by blast

theorem decoder_panics_or_reads_capacity_witness:
  "NewNetworkFrame \<lparr> elems = [2, 10, 1, 6], spare = [0, 0, 0, 0] \<rparr> = Inl SliceBoundsOutOfRange
   \<and> packetReceiver example_constants True New \<lparr> elems = [2, 10, 1, 6], spare = [0, 0, 0, 0] \<rparr>
       = Inl SliceBoundsOutOfRange
   \<and> NewNetworkFrame \<lparr> elems = [2, 10, 1, 8], spare = [0, 0, 0, 0] \<rparr>
       = Inr \<lparr> Type = 2, Seq = 1, ID = 10, Size = 8, Data = \<lparr> elems = [0], spare = [] \<rparr> \<rparr>"
  using decoder_panics_or_reads_capacity
          [of "\<lparr> elems = [2, 10, 1, 6], spare = [0, 0, 0, 0] \<rparr>" example_constants True New]
        decoder_panics_or_reads_capacity
          [of "\<lparr> elems = [2, 10, 1, 8], spare = [0, 0, 0, 0] \<rparr>" example_constants True New]
  by (simp add: len_slice_def cap_slice_def)

section \<open>Acknowledging frames\<close>




text \<open>The block marked TESTING panics on a payload of one to three bytes when the
  frame's type equals the constant it compares with.\<close>

lemma positionChangedTest_short_payload:
  assumes "Type fr = ARCOMMANDS_ID_ARDRONE3_PILOTINGSTATE_CMD_POSITIONCHANGED c"
    and "0 < len_slice (Data fr)" and "len_slice (Data fr) < 4"
  shows "positionChangedTest c fr = Inl IndexOutOfRange"
  using assms by (simp add: positionChangedTest_def ok_then_def index_slice_def)

lemma positionChangedTest_other_type:
  assumes "Type fr \<noteq> ARCOMMANDS_ID_ARDRONE3_PILOTINGSTATE_CMD_POSITIONCHANGED c"
  shows "positionChangedTest c fr = Inr ()"
  using assms by (simp add: positionChangedTest_def)

text \<open>The TESTING block returns exactly when the frame's type is not the constant it
  compares with, or the payload is empty, or the payload has at least 4 bytes and, for
  class 4 and command 12, its slice has a capacity of at least 40.\<close>

lemma positionChangedTest_returns_iff:
  "positionChangedTest c fr = Inr () \<longleftrightarrow>
     Type fr \<noteq> ARCOMMANDS_ID_ARDRONE3_PILOTINGSTATE_CMD_POSITIONCHANGED c
     \<or> len_slice (Data fr) = 0
     \<or> (4 \<le> len_slice (Data fr)
        \<and> (elems (Data fr) ! 1 = 4 \<and> uint (elems (Data fr) ! 2) + uint (elems (Data fr) ! 3) = 12
             \<longrightarrow> 40 \<le> cap_slice (Data fr)))"
  by (auto simp add: positionChangedTest_def ok_then_def index_slice_def reslice_def
        len_slice_def cap_slice_def Let_def)




section \<open>Directional commands\<close>

text \<open>C9: each of Up, Down, Forward, Backward, Right, Left, Clockwise and
  CounterClockwise sets the flag to 1 and writes its own axis only, with the argument
  clamped to 0..100 and negated for Down, Backward, Left and CounterClockwise; the rest of
  the state is unchanged. A new client has flag and axes 0, Forward(150) on it gives pitch
  100 and flag 1, and Stop sets flag and all axes to 0.\<close>

theorem setters_clamp_one_axis:
  "Up b v = b\<lparr>Pcmd := (Pcmd b)\<lparr>Flag := 1, Gaz := max 0 (min 100 v)\<rparr>\<rparr>
   \<and> Down b v = b\<lparr>Pcmd := (Pcmd b)\<lparr>Flag := 1, Gaz := - max 0 (min 100 v)\<rparr>\<rparr>
   \<and> Forward b v = b\<lparr>Pcmd := (Pcmd b)\<lparr>Flag := 1, Pitch := max 0 (min 100 v)\<rparr>\<rparr>
   \<and> Backward b v = b\<lparr>Pcmd := (Pcmd b)\<lparr>Flag := 1, Pitch := - max 0 (min 100 v)\<rparr>\<rparr>
   \<and> Right b v = b\<lparr>Pcmd := (Pcmd b)\<lparr>Flag := 1, Roll := max 0 (min 100 v)\<rparr>\<rparr>
   \<and> Left b v = b\<lparr>Pcmd := (Pcmd b)\<lparr>Flag := 1, Roll := - max 0 (min 100 v)\<rparr>\<rparr>
   \<and> Clockwise b v = b\<lparr>Pcmd := (Pcmd b)\<lparr>Flag := 1, Yaw := max 0 (min 100 v)\<rparr>\<rparr>
   \<and> CounterClockwise b v = b\<lparr>Pcmd := (Pcmd b)\<lparr>Flag := 1, Yaw := - max 0 (min 100 v)\<rparr>\<rparr>
   \<and> Pcmd New = \<lparr> Flag = 0, Roll = 0, Pitch = 0, Yaw = 0, Gaz = 0, Psi = 0 \<rparr>
   \<and> Pcmd (Forward New 150) = \<lparr> Flag = 1, Roll = 0, Pitch = 100, Yaw = 0, Gaz = 0, Psi = 0 \<rparr>
   \<and> Stop b = b\<lparr>Pcmd := \<lparr> Flag = 0, Roll = 0, Pitch = 0, Yaw = 0, Gaz = 0, Psi = 0 \<rparr>\<rparr>"
  by (simp add: Up_def Down_def Forward_def Backward_def Right_def Left_def Clockwise_def
        CounterClockwise_def Stop_def New_def validatePitch_def Let_def max_def min_def)

theorem setters_clamp_one_axis_witness:
  "Pcmd (Backward (Up New 30) (-5)) = \<lparr> Flag = 1, Roll = 0, Pitch = 0, Yaw = 0, Gaz = 30, Psi = 0 \<rparr>
   \<and> Pcmd (Left (Up New 30) 250) = \<lparr> Flag = 1, Roll = -100, Pitch = 0, Yaw = 0, Gaz = 30, Psi = 0 \<rparr>
   \<and> Pcmd (Stop (Left (Up New 30) 250)) = \<lparr> Flag = 0, Roll = 0, Pitch = 0, Yaw = 0, Gaz = 0, Psi = 0 \<rparr>"
  using setters_clamp_one_axis [of New 30] setters_clamp_one_axis [of "Up New 30" "-5"]
        setters_clamp_one_axis [of "Up New 30" 250] setters_clamp_one_axis [of "Left (Up New 30) 250" 0]
  by (simp add: New_def)

section \<open>The first video fragment\<close>

text \<open>C10: on a new client, processing a fragment panics with an assignment to the nil
  \<open>fragments\<close> map exactly when the fragment's frame number is 0, the initial in-progress
  frame number: only the branch taken on a change of frame number allocates the map.\<close>

theorem first_fragment_of_frame_zero_panics:
  "createARStreamACK c ready New fr = Inl AssignToNilMap \<longleftrightarrow> FrameNumber fr = 0"
  by (simp add: createARStreamACK_def New_def Let_def len_fragments_def
        networkFrameGenerator_eq split: prod.splits)

theorem first_fragment_of_frame_zero_panics_witness:
  "createARStreamACK example_constants True New
     \<lparr> FrameNumber = 0, FrameFlags = 1, FragmentNumber = 0, FragmentsPerFrame = 1, Frame = [65] \<rparr>
     = Inl AssignToNilMap
   \<and> createARStreamACK example_constants True New
     \<lparr> FrameNumber = 1, FrameFlags = 1, FragmentNumber = 0, FragmentsPerFrame = 1, Frame = [65] \<rparr>
     \<noteq> Inl AssignToNilMap"
  using first_fragment_of_frame_zero_panics [of example_constants True
          "\<lparr> FrameNumber = 0, FrameFlags = 1, FragmentNumber = 0, FragmentsPerFrame = 1, Frame = [65] \<rparr>"]
        first_fragment_of_frame_zero_panics [of example_constants True
          "\<lparr> FrameNumber = 1, FrameFlags = 1, FragmentNumber = 0, FragmentsPerFrame = 1, Frame = [65] \<rparr>"]
  by simp

section \<open>The video reassembler\<close>

lemmas eval_defs = emitted_after_def state_after_def fragment_def New_def createARStreamACK_def
  finalize_def len_fragments_def lookup_fragment_def ok_then_def networkFrameGenerator_eq
  shift_one_def Let_def collect_fragments.simps client_after_def

lemma finalize_out:
  "snd (finalize ready t fr)
     = (if eligible t fr \<and> \<not> fst (collect_fragments (fragments t) 0 (frame t)) \<and> ready
        then Some (snd (collect_fragments (fragments t) 0 (frame t))) else None)"
  by (simp add: finalize_def eligible_def Let_def split: prod.splits)

lemma finalize_waiting:
  "waitForIframe (fst (finalize ready t fr))
     \<longleftrightarrow> frameFlags t \<noteq> 1
         \<and> (waitForIframe t \<or> FrameNumber fr \<noteq> ARStreamACK.FrameNumber (arstreamACK t) + 1)"
  by (simp add: finalize_def Let_def split: prod.splits)

lemma finalize_keeps:
  "arstreamACK (fst (finalize ready t fr)) = arstreamACK t"
  "fragments (fst (finalize ready t fr)) = fragments t"
  "frameFlags (fst (finalize ready t fr)) = frameFlags t"
  by (simp_all add: finalize_def Let_def split: prod.splits)

lemma createARStreamACK_change:
  assumes "FrameNumber fr \<noteq> ARStreamACK.FrameNumber (arstreamACK (tmpFrame b))"
  shows "\<exists>b' ack.
           createARStreamACK c ready b fr
             = Inr (b', (if 0 < len_fragments (fragments (tmpFrame b))
                         then snd (finalize ready (tmpFrame b) fr) else None), ack)
           \<and> fragments (tmpFrame b') = Some [(FragmentNumber fr, Frame fr)]
           \<and> frame (tmpFrame b') = []
           \<and> frameFlags (tmpFrame b') = FrameFlags fr
           \<and> ARStreamACK.FrameNumber (arstreamACK (tmpFrame b')) = FrameNumber fr
           \<and> waitForIframe (tmpFrame b')
               = (if 0 < len_fragments (fragments (tmpFrame b))
                  then waitForIframe (fst (finalize ready (tmpFrame b) fr))
                  else waitForIframe (tmpFrame b))"
  using assms
  by (simp add: createARStreamACK_def Let_def case_prod_beta finalize_keeps)

lemma createARStreamACK_same:
  assumes "FrameNumber fr = ARStreamACK.FrameNumber (arstreamACK (tmpFrame b))"
    and "fragments (tmpFrame b) = Some al"
  shows "\<exists>b' ack.
           createARStreamACK c ready b fr = Inr (b', None, ack)
           \<and> fragments (tmpFrame b') = Some (AList.update (FragmentNumber fr) (Frame fr) al)
           \<and> frame (tmpFrame b') = frame (tmpFrame b)
           \<and> frameFlags (tmpFrame b') = frameFlags (tmpFrame b)
           \<and> ARStreamACK.FrameNumber (arstreamACK (tmpFrame b'))
               = ARStreamACK.FrameNumber (arstreamACK (tmpFrame b))
           \<and> waitForIframe (tmpFrame b') = waitForIframe (tmpFrame b)"
  using assms
  by (simp add: createARStreamACK_def Let_def case_prod_beta)

lemma createARStreamACK_nil_map:
  assumes "FrameNumber fr = ARStreamACK.FrameNumber (arstreamACK (tmpFrame b))"
    and "fragments (tmpFrame b) = None"
  shows "createARStreamACK c ready b fr = Inl AssignToNilMap"
  using assms
  by (simp add: createARStreamACK_def Let_def case_prod_beta)

subsection \<open>The acknowledgment bitmap\<close>

text \<open>C2 (the bitmap is reset when the frame number changes, so that its set bits are the
  indices received for the frame in progress) fails on the code, which never clears
  \<open>LowPacketsAck\<close> and \<open>HighPacketsAck\<close>: after fragment 0 of frame 1 and then fragment 1 of
  frame 2, the map of frame 2 holds index 1 only, and the low word is 3, with bit 0 left
  over from frame 1.\<close>

theorem ack_bitmap_carries_over:
  "state_after example_constants
     [(True, fragment 1 0 0 1 [65]), (True, fragment 2 0 1 2 [66])]
     = Some \<lparr> arstreamACK = \<lparr> ARStreamACK.FrameNumber = 2, HighPacketsAck = 0, LowPacketsAck = 3 \<rparr>,
              fragments = Some [(1, [66])], frame = [], waitForIframe = False, frameFlags = 0 \<rparr>"
  by (simp add: eval_defs)

subsection \<open>Consecutive frame numbers\<close>

text \<open>C4 (the step from frame 65535 to frame 0 is consecutive and does not set
  \<open>waitForIframe\<close>) fails on the code, which compares the new number with the previous one
  plus one as Go \<open>int\<close>s, 0 against 65536: after a complete frame 65535 and a fragment of
  frame 0, \<open>waitForIframe\<close> is true and frame 65535 was not emitted, while the step from
  65534 to 65535 emits frame 65534.\<close>

theorem wrap_to_frame_zero_sets_waiting:
  "state_after example_constants
     [(True, fragment 65535 0 0 1 [65]), (True, fragment 0 0 0 1 [66])]
     = Some \<lparr> arstreamACK = \<lparr> ARStreamACK.FrameNumber = 0, HighPacketsAck = 0, LowPacketsAck = 1 \<rparr>,
              fragments = Some [(0, [66])], frame = [], waitForIframe = True, frameFlags = 0 \<rparr>
   \<and> emitted_after example_constants
     [(True, fragment 65535 0 0 1 [65]), (True, fragment 0 0 0 1 [66])] = Some [None, None]
   \<and> emitted_after example_constants
     [(True, fragment 65534 0 0 1 [65]), (True, fragment 65535 0 0 1 [66])] = Some [None, Some [65]]"
  by (simp add: eval_defs)

subsection \<open>Waiting for a key frame\<close>

lemma step_while_waiting:
  assumes w: "waitForIframe (tmpFrame b)" and k: "frameFlags (tmpFrame b) \<noteq> 1"
    and f: "FrameFlags fr \<noteq> 1" and m: "fragments (tmpFrame b) \<noteq> None"
  shows "\<exists>b' ack. createARStreamACK c ready b fr = Inr (b', None, ack)
           \<and> waitForIframe (tmpFrame b') \<and> frameFlags (tmpFrame b') \<noteq> 1
           \<and> fragments (tmpFrame b') \<noteq> None"
proof (cases "FrameNumber fr = ARStreamACK.FrameNumber (arstreamACK (tmpFrame b))")
  case True
  from m obtain al where "fragments (tmpFrame b) = Some al" by auto
  from createARStreamACK_same [OF True this, of c ready] w k show ?thesis by auto
next
  case False
  have "snd (finalize ready (tmpFrame b) fr) = None"
    using w k by (simp add: finalize_out eligible_def)
  moreover have "waitForIframe (fst (finalize ready (tmpFrame b) fr))"
    using w k by (simp add: finalize_waiting)
  ultimately show ?thesis
    using createARStreamACK_change [OF False, of c ready] w f by (auto split: if_splits)
qed

lemma feed_while_waiting:
  assumes "waitForIframe (tmpFrame b)" and "frameFlags (tmpFrame b) \<noteq> 1"
    and "fragments (tmpFrame b) \<noteq> None" and "\<forall>x\<in>set xs. FrameFlags (snd x) \<noteq> 1"
  shows "\<exists>b'. feed c b xs = Inr (b', replicate (length xs) None) \<and> waitForIframe (tmpFrame b')"
  using assms
proof (induction xs arbitrary: b)
  case Nil
  then show ?case by simp
next
  case (Cons x xs)
  from Cons.prems obtain b1 ack where
    s: "createARStreamACK c (fst x) b (snd x) = Inr (b1, None, ack)"
    and w: "waitForIframe (tmpFrame b1)" "frameFlags (tmpFrame b1) \<noteq> 1"
           "fragments (tmpFrame b1) \<noteq> None"
    using step_while_waiting [of b "snd x" c "fst x"] by auto
  have "\<forall>x\<in>set xs. FrameFlags (snd x) \<noteq> 1" using Cons.prems(4) by simp
  from Cons.IH [OF w this] obtain b' where
    "feed c b1 xs = Inr (b', replicate (length xs) None)" "waitForIframe (tmpFrame b')"
    by auto
  with s show ?case by (simp add: ok_then_def)
qed

lemma emission_while_waiting:
  assumes s: "createARStreamACK c ready b fr = Inr (b', Some f, ack)"
    and w: "waitForIframe (tmpFrame b)"
  shows "frameFlags (tmpFrame b) = 1 \<and> \<not> waitForIframe (tmpFrame b')"
proof (cases "FrameNumber fr = ARStreamACK.FrameNumber (arstreamACK (tmpFrame b))")
  case True
  show ?thesis
  proof (cases "fragments (tmpFrame b)")
    case None
    from createARStreamACK_nil_map [OF True None, of c ready] s show ?thesis by simp
  next
    case (Some al)
    from createARStreamACK_same [OF True Some, of c ready] s show ?thesis by auto
  qed
next
  case False
  from createARStreamACK_change [OF False, of c ready] s
  have len: "0 < len_fragments (fragments (tmpFrame b))"
    and out: "snd (finalize ready (tmpFrame b) fr) = Some f"
    and w': "waitForIframe (tmpFrame b') = waitForIframe (fst (finalize ready (tmpFrame b) fr))"
    by (auto split: if_splits)
  from out w have k: "frameFlags (tmpFrame b) = 1"
    by (simp add: finalize_out eligible_def split: if_splits)
  with w' show ?thesis by (simp add: finalize_waiting)
qed

lemma key_frame_finalized_clears_waiting:
  assumes "FrameNumber fr \<noteq> ARStreamACK.FrameNumber (arstreamACK (tmpFrame b))"
    and "0 < len_fragments (fragments (tmpFrame b))" and "frameFlags (tmpFrame b) = 1"
  shows "\<exists>b' out ack. createARStreamACK c ready b fr = Inr (b', out, ack)
           \<and> \<not> waitForIframe (tmpFrame b')"
  using createARStreamACK_change [OF assms(1), of c ready] assms(2,3)
  by (auto simp add: finalize_waiting)

text \<open>C3, as stated (once \<open>waitForIframe\<close> is true nothing is emitted until a key frame
  arrives and is complete, and the emission of that key frame clears the flag), does not
  hold. After frame 5 and fragments 0 and 2 of 3 of key frame 7 the client is waiting (frame
  6 was missed); the first fragment of frame 8 finalizes frame 7, which clears the flag
  although frame 7 lacks fragment 1 and is not emitted; the first fragment of frame 9 then
  emits frame 8, which is no key frame.\<close>

theorem waiting_cleared_without_emission_counterexample:
  "map_option waitForIframe (state_after example_constants
     [(True, fragment 5 0 0 1 [65]), (True, fragment 7 1 0 3 [66]), (True, fragment 7 1 2 3 [67])])
     = Some True
   \<and> map_option waitForIframe (state_after example_constants
     [(True, fragment 5 0 0 1 [65]), (True, fragment 7 1 0 3 [66]), (True, fragment 7 1 2 3 [67]),
      (True, fragment 8 0 0 1 [68])])
     = Some False
   \<and> emitted_after example_constants
     [(True, fragment 5 0 0 1 [65]), (True, fragment 7 1 0 3 [66]), (True, fragment 7 1 2 3 [67]),
      (True, fragment 8 0 0 1 [68]), (True, fragment 9 0 0 1 [69])]
     = Some [None, None, None, None, Some [68]]"
  by (simp add: eval_defs)

text \<open>C3, amended: while \<open>waitForIframe\<close> is true, the frame in progress is not recorded
  with flags 1 and no fragment with flags 1 arrives, every fragment is processed, nothing
  is handed to the video channel and \<open>waitForIframe\<close> stays true. A call that emits a frame
  from a waiting state finalizes a frame recorded with flags 1 and leaves \<open>waitForIframe\<close>
  false. Finalizing a frame recorded with flags 1 leaves \<open>waitForIframe\<close> false whether or
  not that frame is complete or emitted.\<close>

theorem waiting_until_key_frame_finalized:
  "(waitForIframe (tmpFrame b) \<and> frameFlags (tmpFrame b) \<noteq> 1 \<and> fragments (tmpFrame b) \<noteq> None
      \<and> (\<forall>x\<in>set xs. FrameFlags (snd x) \<noteq> 1)
      \<longrightarrow> (\<exists>b'. feed c b xs = Inr (b', replicate (length xs) None) \<and> waitForIframe (tmpFrame b')))
   \<and> (waitForIframe (tmpFrame b) \<and> createARStreamACK c ready b fr = Inr (b1, Some f, ack)
      \<longrightarrow> frameFlags (tmpFrame b) = 1 \<and> \<not> waitForIframe (tmpFrame b1))
   \<and> (FrameNumber fr \<noteq> ARStreamACK.FrameNumber (arstreamACK (tmpFrame b))
      \<and> 0 < len_fragments (fragments (tmpFrame b)) \<and> frameFlags (tmpFrame b) = 1
      \<longrightarrow> (\<exists>b' out a. createARStreamACK c ready b fr = Inr (b', out, a)
             \<and> \<not> waitForIframe (tmpFrame b')))"
  using feed_while_waiting [of b xs c] emission_while_waiting [of c ready b fr b1 f ack]
        key_frame_finalized_clears_waiting [of fr b c ready]
  by blast

theorem waiting_until_key_frame_finalized_witness:
  "(\<exists>b'. feed example_constants
            (client_after example_constants
               [(True, fragment 5 0 0 1 [65]), (True, fragment 7 0 0 1 [66])])
            [(True, fragment 8 0 0 1 [67]), (True, fragment 9 0 0 1 [68])]
            = Inr (b', [None, None])
          \<and> waitForIframe (tmpFrame b'))
   \<and> (\<exists>b' ack. createARStreamACK example_constants True
                  (client_after example_constants
                     [(True, fragment 5 0 0 1 [65]), (True, fragment 7 1 0 1 [66])])
                  (fragment 9 0 0 1 [68]) = Inr (b', Some [66], ack)
                \<and> \<not> waitForIframe (tmpFrame b'))"
proof -
  let ?b = "client_after example_constants
              [(True, fragment 5 0 0 1 [65]), (True, fragment 7 0 0 1 [66])]"
  let ?k = "client_after example_constants
              [(True, fragment 5 0 0 1 [65]), (True, fragment 7 1 0 1 [66])]"
  let ?xs = "[(True, fragment 8 0 0 1 [67]), (True, fragment 9 0 0 1 [68])]"
  let ?fr = "fragment 9 0 0 1 [68]"
  note w = waiting_until_key_frame_finalized
  have tb: "tmpFrame ?b
              = \<lparr> arstreamACK = \<lparr> ARStreamACK.FrameNumber = 7, HighPacketsAck = 0, LowPacketsAck = 1 \<rparr>,
                  fragments = Some [(0, [66])], frame = [], waitForIframe = True, frameFlags = 0 \<rparr>"
    by (simp add: eval_defs)
  have tk: "tmpFrame ?k
              = \<lparr> arstreamACK = \<lparr> ARStreamACK.FrameNumber = 7, HighPacketsAck = 0, LowPacketsAck = 1 \<rparr>,
                  fragments = Some [(0, [66])], frame = [], waitForIframe = True, frameFlags = 1 \<rparr>"
    by (simp add: eval_defs)
  have "waitForIframe (tmpFrame ?b) \<and> frameFlags (tmpFrame ?b) \<noteq> 1
        \<and> fragments (tmpFrame ?b) \<noteq> None \<and> (\<forall>x\<in>set ?xs. FrameFlags (snd x) \<noteq> 1)"
    unfolding tb by (simp add: fragment_def)
  with w [of ?b ?xs example_constants True ?fr ?b "[]" "[]"]
  have a: "\<exists>b'. feed example_constants ?b ?xs = Inr (b', replicate (length ?xs) None)
             \<and> waitForIframe (tmpFrame b')"
    by blast
  have "FrameNumber ?fr \<noteq> ARStreamACK.FrameNumber (arstreamACK (tmpFrame ?k))
        \<and> 0 < len_fragments (fragments (tmpFrame ?k)) \<and> frameFlags (tmpFrame ?k) = 1"
    unfolding tk by (simp add: fragment_def len_fragments_def)
  with w [of ?k "[]" example_constants True ?fr ?k "[]" "[]"]
  obtain b' out ack where
    s: "createARStreamACK example_constants True ?k ?fr = Inr (b', out, ack)"
    by blast
  have "snd (finalize True (tmpFrame ?k) ?fr) = Some [66]"
    unfolding tk
    by (simp add: finalize_out eligible_def fragment_def collect_fragments.simps
          len_fragments_def lookup_fragment_def)
  moreover have "FrameNumber ?fr \<noteq> ARStreamACK.FrameNumber (arstreamACK (tmpFrame ?k))"
    and "0 < len_fragments (fragments (tmpFrame ?k))"
    unfolding tk by (simp_all add: fragment_def len_fragments_def)
  ultimately have o: "out = Some [66]"
    using s createARStreamACK_change [of ?fr ?k example_constants True] by auto
  have "waitForIframe (tmpFrame ?k)" unfolding tk by simp
  with s o w [of ?k "[]" example_constants True ?fr b' "[66]" ack]
  have "\<not> waitForIframe (tmpFrame b')"
    by blast
  with a s o show ?thesis by (auto simp add: numeral_2_eq_2)
qed

subsection \<open>Emission of a frame\<close>

lemma keys_store_all:
  "fst ` set (store_all al fs) = fst ` set al \<union> FragmentNumber ` set fs"
  by (induction fs arbitrary: al) (auto simp add: dom_update)

lemma distinct_store_all:
  "distinct (map fst al) \<Longrightarrow> distinct (map fst (store_all al fs))"
  by (induction fs arbitrary: al) (auto simp add: distinct_update)

lemma map_of_store_all_other:
  "k \<notin> FragmentNumber ` set fs \<Longrightarrow> map_of (store_all al fs) k = map_of al k"
  by (induction fs arbitrary: al) (auto simp add: update_conv')

lemma map_of_store_all:
  "distinct (map FragmentNumber fs) \<Longrightarrow> f \<in> set fs \<Longrightarrow>
   map_of (store_all al fs) (FragmentNumber f) = Some (Frame f)"
proof (induction fs arbitrary: al)
  case Nil
  then show ?case by simp
next
  case (Cons g fs)
  show ?case
  proof (cases "f = g")
    case True
    with Cons.prems have "FragmentNumber f \<notin> FragmentNumber ` set fs" by auto
    then show ?thesis using True by (simp add: map_of_store_all_other update_conv')
  next
    case False
    with Cons.prems have "f \<in> set fs" "distinct (map FragmentNumber fs)" by auto
    then show ?thesis using Cons.IH by simp
  qed
qed

lemma length_store_all:
  assumes "distinct (map FragmentNumber fs)"
  shows "length (store_all [] fs) = length fs"
proof -
  have d: "distinct (map fst (store_all [] fs))" by (rule distinct_store_all) simp
  have "length (store_all [] fs) = card (fst ` set (store_all [] fs))"
    using distinct_card [OF d] by simp
  also have "\<dots> = card (FragmentNumber ` set fs)" by (simp add: keys_store_all)
  also have "\<dots> = length fs" using distinct_card [OF assms] by simp
  finally show ?thesis .
qed

lemma collect_fragments_complete:
  "0 \<le> i \<Longrightarrow> \<forall>j. i \<le> j \<and> j < int (len_fragments m) \<longrightarrow> lookup_fragment m j \<noteq> [] \<Longrightarrow>
   collect_fragments m i acc
     = (False, acc @ concat (map (lookup_fragment m) [i..int (len_fragments m) - 1]))"
proof (induction m i acc rule: collect_fragments.induct)
  case (1 m i fr)
  show ?case
  proof (cases "i < int (len_fragments m)")
    case True
    then have ne: "lookup_fragment m i \<noteq> []" using "1.prems" by simp
    have ih: "collect_fragments m (i + 1) (fr @ lookup_fragment m i)
                = (False, (fr @ lookup_fragment m i)
                          @ concat (map (lookup_fragment m) [i + 1..int (len_fragments m) - 1]))"
      using "1.IH" [OF True] ne "1.prems" by simp
    have up: "[i..int (len_fragments m) - 1] = i # [i + 1..int (len_fragments m) - 1]"
      using True by (simp add: upto_rec1)
    show ?thesis
      using True ne ih by (simp add: collect_fragments.simps [of m i fr] up)
  next
    case False
    then show ?thesis by (simp add: collect_fragments.simps [of m i fr])
  qed
qed

lemma collect_fragments_gap:
  "i \<le> j \<Longrightarrow> j < int (len_fragments m) \<Longrightarrow> lookup_fragment m j = [] \<Longrightarrow>
   fst (collect_fragments m i acc)"
proof (induction m i acc rule: collect_fragments.induct)
  case (1 m i fr)
  have lt: "i < int (len_fragments m)" using "1.prems" by simp
  show ?case
  proof (cases "lookup_fragment m i = []")
    case True
    then show ?thesis using lt by (simp add: collect_fragments.simps [of m i fr])
  next
    case False
    then have "i \<noteq> j" using "1.prems" by auto
    then have "i + 1 \<le> j" using "1.prems" by simp
    then have "fst (collect_fragments m (i + 1) (fr @ lookup_fragment m i))"
      using "1.IH" [OF lt] False "1.prems" by simp
    then show ?thesis using lt False by (simp add: collect_fragments.simps [of m i fr])
  qed
qed

lemma feed_same_frame:
  assumes "\<forall>x\<in>set xs. FrameNumber (snd x) = ARStreamACK.FrameNumber (arstreamACK (tmpFrame b))"
    and "fragments (tmpFrame b) = Some al"
  shows "\<exists>b'. feed c b xs = Inr (b', replicate (length xs) None)
           \<and> fragments (tmpFrame b') = Some (store_all al (map snd xs))
           \<and> frame (tmpFrame b') = frame (tmpFrame b)
           \<and> frameFlags (tmpFrame b') = frameFlags (tmpFrame b)
           \<and> ARStreamACK.FrameNumber (arstreamACK (tmpFrame b'))
               = ARStreamACK.FrameNumber (arstreamACK (tmpFrame b))
           \<and> waitForIframe (tmpFrame b') = waitForIframe (tmpFrame b)"
  using assms
proof (induction xs arbitrary: b al)
  case Nil
  then show ?case by simp
next
  case (Cons x xs)
  have same: "FrameNumber (snd x) = ARStreamACK.FrameNumber (arstreamACK (tmpFrame b))"
    using Cons.prems(1) by simp
  from createARStreamACK_same [OF same Cons.prems(2), of c "fst x"] obtain b1 ack where
    s: "createARStreamACK c (fst x) b (snd x) = Inr (b1, None, ack)"
    and m: "fragments (tmpFrame b1) = Some (AList.update (FragmentNumber (snd x)) (Frame (snd x)) al)"
    and k: "frame (tmpFrame b1) = frame (tmpFrame b)"
           "frameFlags (tmpFrame b1) = frameFlags (tmpFrame b)"
           "ARStreamACK.FrameNumber (arstreamACK (tmpFrame b1))
              = ARStreamACK.FrameNumber (arstreamACK (tmpFrame b))"
           "waitForIframe (tmpFrame b1) = waitForIframe (tmpFrame b)"
    by blast
  have rest: "\<forall>y\<in>set xs. FrameNumber (snd y) = ARStreamACK.FrameNumber (arstreamACK (tmpFrame b1))"
    using Cons.prems(1) k(3) by simp
  from Cons.IH [OF rest m] obtain b' where
    "feed c b1 xs = Inr (b', replicate (length xs) None)"
    "fragments (tmpFrame b')
       = Some (store_all (AList.update (FragmentNumber (snd x)) (Frame (snd x)) al) (map snd xs))"
    "frame (tmpFrame b') = frame (tmpFrame b1)"
    "frameFlags (tmpFrame b') = frameFlags (tmpFrame b1)"
    "ARStreamACK.FrameNumber (arstreamACK (tmpFrame b'))
       = ARStreamACK.FrameNumber (arstreamACK (tmpFrame b1))"
    "waitForIframe (tmpFrame b') = waitForIframe (tmpFrame b1)"
    by blast
  with s k show ?case by (simp add: ok_then_def)
qed

lemma feed_new_frame:
  assumes "FrameNumber (snd x) \<noteq> ARStreamACK.FrameNumber (arstreamACK (tmpFrame b))"
    and "\<forall>y\<in>set xs. FrameNumber (snd y) = FrameNumber (snd x)"
  shows "\<exists>b' out0. feed c b (x # xs) = Inr (b', out0 # replicate (length xs) None)
           \<and> fragments (tmpFrame b') = Some (store_all [] (map snd (x # xs)))
           \<and> frame (tmpFrame b') = []
           \<and> frameFlags (tmpFrame b') = FrameFlags (snd x)
           \<and> ARStreamACK.FrameNumber (arstreamACK (tmpFrame b')) = FrameNumber (snd x)"
proof -
  from createARStreamACK_change [OF assms(1), of c "fst x"] obtain b1 out0 ack where
    s: "createARStreamACK c (fst x) b (snd x) = Inr (b1, out0, ack)"
    and m: "fragments (tmpFrame b1) = Some [(FragmentNumber (snd x), Frame (snd x))]"
    and k: "frame (tmpFrame b1) = []" "frameFlags (tmpFrame b1) = FrameFlags (snd x)"
           "ARStreamACK.FrameNumber (arstreamACK (tmpFrame b1)) = FrameNumber (snd x)"
    by blast
  have rest: "\<forall>y\<in>set xs. FrameNumber (snd y) = ARStreamACK.FrameNumber (arstreamACK (tmpFrame b1))"
    using assms(2) k(3) by simp
  from feed_same_frame [OF rest m, of c] obtain b' where
    "feed c b1 xs = Inr (b', replicate (length xs) None)"
    "fragments (tmpFrame b')
       = Some (store_all [(FragmentNumber (snd x), Frame (snd x))] (map snd xs))"
    "frame (tmpFrame b') = frame (tmpFrame b1)"
    "frameFlags (tmpFrame b') = frameFlags (tmpFrame b1)"
    "ARStreamACK.FrameNumber (arstreamACK (tmpFrame b'))
       = ARStreamACK.FrameNumber (arstreamACK (tmpFrame b1))"
    by blast
  with s k show ?thesis by (simp add: ok_then_def)
qed

lemma feed_snoc:
  "feed c b (xs @ [x]) =
     ok_then (feed c b xs) (\<lambda>(b1, outs).
     ok_then (createARStreamACK c (fst x) b1 (snd x)) (\<lambda>(b2, out, ack). Inr (b2, outs @ [out])))"
proof (induction xs arbitrary: b)
  case Nil
  then show ?case by (simp add: ok_then_def split: sum.splits)
next
  case (Cons y ys)
  then show ?case by (simp add: ok_then_def split: sum.splits prod.splits)
qed

lemma sorted_indices:
  assumes d: "distinct (map FragmentNumber fs)" and s: "FragmentNumber ` set fs = {0..<N}"
  shows "map FragmentNumber (sort_key FragmentNumber fs) = [0..N - 1]"
proof (rule sorted_distinct_set_unique)
  show "sorted (map FragmentNumber (sort_key FragmentNumber fs))" by simp
  show "distinct (map FragmentNumber (sort_key FragmentNumber fs))"
    using d by (simp add: distinct_map)
  show "sorted [0..N - 1]" by simp
  show "distinct [0..N - 1]" by simp
  show "set (map FragmentNumber (sort_key FragmentNumber fs)) = set [0..N - 1]"
    using s by auto
qed

lemma length_is_declared:
  assumes d: "distinct (map FragmentNumber fs)" and s: "FragmentNumber ` set fs = {0..<N}"
    and ne: "fs \<noteq> []"
  shows "int (length fs) = N"
proof -
  have "length fs = card (FragmentNumber ` set fs)" using distinct_card [OF d] by simp
  also have "\<dots> = card {0..<N}" by (simp add: s)
  finally have l: "length fs = nat N" by simp
  from ne have "FragmentNumber ` set fs \<noteq> {}" by simp
  then have "{0..<N} \<noteq> {}" unfolding s .
  then have "0 < N" by simp
  with l show ?thesis by simp
qed

lemma collect_complete_frame:
  assumes d: "distinct (map FragmentNumber fs)" and s: "FragmentNumber ` set fs = {0..<N}"
    and ne: "fs \<noteq> []" and p: "\<forall>f\<in>set fs. Frame f \<noteq> []"
  shows "collect_fragments (Some (store_all [] fs)) 0 []
           = (False, concat (map Frame (sort_key FragmentNumber fs)))"
proof -
  let ?m = "Some (store_all [] fs)"
  have len: "int (len_fragments ?m) = N"
    using length_is_declared [OF d s ne] by (simp add: len_fragments_def length_store_all [OF d])
  have look: "lookup_fragment ?m (FragmentNumber f) = Frame f" if "f \<in> set fs" for f
    using map_of_store_all [OF d that, of "[]"] by (simp add: lookup_fragment_def)
  have all: "\<forall>j. 0 \<le> j \<and> j < int (len_fragments ?m) \<longrightarrow> lookup_fragment ?m j \<noteq> []"
  proof (intro allI impI)
    fix j assume "0 \<le> j \<and> j < int (len_fragments ?m)"
    then have "j \<in> FragmentNumber ` set fs" using len s by auto
    then obtain f where "f \<in> set fs" "j = FragmentNumber f" by auto
    then show "lookup_fragment ?m j \<noteq> []" using look p by simp
  qed
  have "map (lookup_fragment ?m) [0..N - 1]
          = map (lookup_fragment ?m) (map FragmentNumber (sort_key FragmentNumber fs))"
    by (simp only: sorted_indices [OF d s])
  also have "\<dots> = map Frame (sort_key FragmentNumber fs)"
    using look by simp
  finally have "map (lookup_fragment ?m) [0..int (len_fragments ?m) - 1]
                  = map Frame (sort_key FragmentNumber fs)"
    by (simp only: len)
  with collect_fragments_complete [OF _ all, of "[]"] show ?thesis by simp
qed

lemma collect_gap_frame:
  assumes d: "distinct (map FragmentNumber fs)"
    and g: "0 \<le> i" "i < int (length fs)" "i \<notin> FragmentNumber ` set fs"
  shows "fst (collect_fragments (Some (store_all [] fs)) 0 acc)"
proof -
  let ?m = "Some (store_all [] fs)"
  have "lookup_fragment ?m i = []"
    using map_of_store_all_other [OF g(3), of "[]"] by (simp add: lookup_fragment_def)
  moreover have "i < int (len_fragments ?m)"
    using g(2) by (simp add: len_fragments_def length_store_all [OF d])
  ultimately show ?thesis using collect_fragments_gap [OF g(1)] by blast
qed

text \<open>C1, as stated (fragments of one frame number with every declared index present
  give exactly one emitted frame when the frame number changes; a missing declared index
  gives none), does not hold. Frame 5, complete with its one fragment, is not emitted when
  the next fragment belongs to frame 7, nor when the video consumer is not ready; and frame
  5 with fragments 0 and 1 of a declared 3 is emitted as the two fragments.\<close>

theorem complete_frame_not_emitted_counterexample:
  "emitted_after example_constants
     [(True, fragment 5 0 0 1 [65]), (True, fragment 7 0 0 1 [66])] = Some [None, None]
   \<and> emitted_after example_constants
     [(True, fragment 5 0 0 1 [65]), (False, fragment 6 0 0 1 [66])] = Some [None, None]
   \<and> emitted_after example_constants
     [(True, fragment 5 0 0 3 [65]), (True, fragment 5 0 1 3 [66]), (True, fragment 6 0 0 1 [67])]
       = Some [None, None, Some [65, 66]]"
  by (simp add: eval_defs)

text \<open>C1, amended: let the fragments \<open>xs\<close>, with pairwise distinct indices, share the
  frame number \<open>n\<close>, the first of them opening that frame, and let a fragment \<open>g\<close> of another
  frame number follow. Then none of \<open>xs\<close> but the first (which may emit the frame before)
  hands anything to the video channel. If the indices of \<open>xs\<close> are exactly 0 to \<open>N - 1\<close>, the
  declared count is \<open>N\<close> and no payload is empty, the call for \<open>g\<close> hands over the payloads
  concatenated in ascending index order when the frame is eligible (the flags of the first
  fragment that arrived are 1, or the client is not waiting for a key frame and \<open>g\<close> has
  frame number \<open>n + 1\<close>) and the video consumer is ready, and nothing otherwise. If an index
  below the number of fragments received is missing, the call for \<open>g\<close> hands over
  nothing.\<close>

theorem frame_emitted_when_eligible_and_complete:
  assumes ne: "xs \<noteq> []"
    and fn: "\<forall>x\<in>set xs. FrameNumber (snd x) = n"
    and new: "ARStreamACK.FrameNumber (arstreamACK (tmpFrame b)) \<noteq> n"
    and d: "distinct (map FragmentNumber (map snd xs))"
    and g: "FrameNumber g \<noteq> n"
  shows "\<exists>b1 b2 out0 out.
           feed c b xs = Inr (b1, out0 # replicate (length xs - 1) None)
         \<and> feed c b (xs @ [(ready, g)]) = Inr (b2, out0 # replicate (length xs - 1) None @ [out])
         \<and> (FragmentNumber ` snd ` set xs = {0..<N}
              \<and> (\<forall>x\<in>set xs. FragmentsPerFrame (snd x) = N \<and> Frame (snd x) \<noteq> [])
            \<longrightarrow> out = (if (FrameFlags (snd (hd xs)) = 1
                             \<or> (\<not> waitForIframe (tmpFrame b1) \<and> FrameNumber g = n + 1))
                            \<and> ready
                         then Some (concat (map Frame (sort_key FragmentNumber (map snd xs))))
                         else None))
         \<and> ((\<exists>i. 0 \<le> i \<and> i < int (length xs) \<and> i \<notin> FragmentNumber ` snd ` set xs)
            \<longrightarrow> out = None)"
proof -
  from ne obtain x rest where xs: "xs = x # rest" by (cases xs) auto
  let ?fs = "map snd xs"
  have x1: "FrameNumber (snd x) \<noteq> ARStreamACK.FrameNumber (arstreamACK (tmpFrame b))"
    using fn new xs by auto
  have x2: "\<forall>y\<in>set rest. FrameNumber (snd y) = FrameNumber (snd x)"
    using fn xs by simp
  from feed_new_frame [OF x1 x2, of c] obtain b1 out0 where
    f1: "feed c b xs = Inr (b1, out0 # replicate (length xs - 1) None)"
    and m: "fragments (tmpFrame b1) = Some (store_all [] ?fs)"
    and fr: "frame (tmpFrame b1) = []"
    and fl: "frameFlags (tmpFrame b1) = FrameFlags (snd (hd xs))"
    and cur: "ARStreamACK.FrameNumber (arstreamACK (tmpFrame b1)) = n"
    using xs fn by auto
  have len: "0 < len_fragments (fragments (tmpFrame b1))"
    using ne by (simp add: m len_fragments_def length_store_all [OF d])
  have chg: "FrameNumber g \<noteq> ARStreamACK.FrameNumber (arstreamACK (tmpFrame b1))"
    using g cur by simp
  let ?out = "snd (finalize ready (tmpFrame b1) g)"
  from createARStreamACK_change [OF chg, of c ready] len obtain b2 ack where
    s2: "createARStreamACK c ready b1 g = Inr (b2, ?out, ack)"
    by auto
  have f2: "feed c b (xs @ [(ready, g)]) = Inr (b2, out0 # replicate (length xs - 1) None @ [?out])"
    by (simp add: feed_snoc f1 s2 ok_then_def)
  have el: "eligible (tmpFrame b1) g
              \<longleftrightarrow> FrameFlags (snd (hd xs)) = 1
                  \<or> (\<not> waitForIframe (tmpFrame b1) \<and> FrameNumber g = n + 1)"
    by (simp add: eligible_def fl cur)
  have complete: "?out = (if (FrameFlags (snd (hd xs)) = 1
                             \<or> (\<not> waitForIframe (tmpFrame b1) \<and> FrameNumber g = n + 1))
                            \<and> ready
                          then Some (concat (map Frame (sort_key FragmentNumber ?fs)))
                          else None)"
    if c1: "FragmentNumber ` snd ` set xs = {0..<N}"
      and c2: "\<forall>x\<in>set xs. FragmentsPerFrame (snd x) = N \<and> Frame (snd x) \<noteq> []"
  proof -
    have s: "FragmentNumber ` set ?fs = {0..<N}" using c1 by simp
    have p: "\<forall>f\<in>set ?fs. Frame f \<noteq> []" using c2 by simp
    have nefs: "?fs \<noteq> []" using ne by simp
    show ?thesis
      using collect_complete_frame [OF d s nefs p] el
      by (simp add: finalize_out m fr)
  qed
  have gap: "?out = None"
    if "\<exists>i. 0 \<le> i \<and> i < int (length xs) \<and> i \<notin> FragmentNumber ` snd ` set xs"
  proof -
    from that obtain i where "0 \<le> i" "i < int (length ?fs)" "i \<notin> FragmentNumber ` set ?fs"
      by auto
    from collect_gap_frame [OF d this, of "[]"] show ?thesis
      by (simp add: finalize_out m fr)
  qed
  from f1 f2 complete gap show ?thesis by blast
qed

theorem frame_emitted_when_eligible_and_complete_witness:
  "emitted_after example_constants
     [(True, fragment 1 1 1 2 [67, 68]), (True, fragment 1 1 0 2 [65, 66]),
      (True, fragment 2 0 0 1 [69])] = Some [None, None, Some [65, 66, 67, 68]]
   \<and> emitted_after example_constants
     [(True, fragment 1 1 0 3 [65]), (True, fragment 1 1 2 3 [67]),
      (True, fragment 2 0 0 1 [69])] = Some [None, None, None]"
proof -
  let ?xs = "[(True, fragment 1 1 1 2 [67, 68]), (True, fragment 1 1 0 2 [65, 66])]"
  let ?ys = "[(True, fragment 1 1 0 3 [65]), (True, fragment 1 1 2 3 [67])]"
  let ?g = "fragment 2 0 0 1 [69]"
  have h1: "?xs \<noteq> []" "?ys \<noteq> []" by simp_all
  have h2: "\<forall>x\<in>set ?xs. FrameNumber (snd x) = 1" "\<forall>x\<in>set ?ys. FrameNumber (snd x) = 1"
    by (simp_all add: fragment_def)
  have h3: "ARStreamACK.FrameNumber (arstreamACK (tmpFrame New)) \<noteq> 1" by (simp add: New_def)
  have h4: "distinct (map FragmentNumber (map snd ?xs))" "distinct (map FragmentNumber (map snd ?ys))"
    by (simp_all add: fragment_def)
  have h5: "FrameNumber ?g \<noteq> 1" by (simp add: fragment_def)
  have h6: "FragmentNumber ` snd ` set ?xs = {0..<2}
            \<and> (\<forall>x\<in>set ?xs. FragmentsPerFrame (snd x) = 2 \<and> Frame (snd x) \<noteq> [])"
    by (auto simp add: fragment_def)
  have h7: "\<exists>i. 0 \<le> i \<and> i < int (length ?ys) \<and> i \<notin> FragmentNumber ` snd ` set ?ys"
    by (rule exI [of _ 1]) (simp add: fragment_def)
  from frame_emitted_when_eligible_and_complete
         [OF h1(1) h2(1) h3 h4(1) h5, of example_constants True 2] h6
  obtain b2 out0 where
    "feed example_constants New (?xs @ [(True, ?g)])
       = Inr (b2, out0 # replicate (length ?xs - 1) None
                  @ [Some (concat (map Frame (sort_key FragmentNumber (map snd ?xs))))])"
    by (auto simp add: fragment_def)
  then have a: "\<exists>out0. emitted_after example_constants (?xs @ [(True, ?g)])
                  = Some [out0, None, Some [65, 66, 67, 68]]"
    by (simp add: emitted_after_def fragment_def)
  from frame_emitted_when_eligible_and_complete
         [OF h1(2) h2(2) h3 h4(2) h5, of example_constants True 3] h7
  obtain b2' out0' where
    "feed example_constants New (?ys @ [(True, ?g)])
       = Inr (b2', out0' # replicate (length ?ys - 1) None @ [None])"
    by auto
  then have b: "\<exists>out0. emitted_after example_constants (?ys @ [(True, ?g)])
                  = Some [out0, None, None]"
    by (simp add: emitted_after_def)
  have "emitted_after example_constants (?xs @ [(True, ?g)]) = Some [None, None, Some [65, 66, 67, 68]]"
       "emitted_after example_constants (?ys @ [(True, ?g)]) = Some [None, None, None]"
    by (simp_all add: eval_defs)
  with a b show ?thesis by simp
qed

end
